theory Spec2Isabelle
  imports Complex_Main "HOL-Library.Monad_Syntax"
begin

section \<open>PointCalculator: from circumferences to a 2D profile\<close>

text \<open>
  JavaScript numbers are modelled as mathematical reals (\<open>Math.PI\<close> is \<open>pi\<close>,
  \<open>Math.sqrt\<close> is \<open>sqrt\<close> on a non-negative argument). Rounding, infinities and NaN
  are outside this model; where the source divides by a quantity that can be zero the
  model returns \<open>None\<close> instead of a number. The point placement is modelled a second
  time on doubles, with every operation rounded, further below.
\<close>

text \<open>A plain \<open>{x, y}\<close> object.\<close>

record point2 =
  px :: real
  py :: real

text \<open>An entry of \<open>radiusArray\<close>: \<open>{index, radius}\<close>.\<close>

record radius_entry =
  re_index :: nat
  radius :: real

text \<open>An entry of \<open>pointCloud\<close>: \<open>{x, y, index}\<close>.\<close>

record profile_point = point2 +
  index :: nat

text \<open>
  A \<open>console.warn\<close> call of \<open>calculateNextPoint\<close>. The message text is built from
  the distance and the vertical offset; the diagnostic keeps the two numbers.
\<close>

datatype diagnostic = DistanceUnsatisfiable real real

definition circumferenceToRadius :: "real \<Rightarrow> real" where
  "circumferenceToRadius circumference = circumference / (2 * pi)"

text \<open>
  \<open>calculateNextPoint(prevPoint, targetY)\<close>, with \<open>this.baseRadius\<close> as first
  argument. The result is the new \<open>{x, y}\<close> object and the warnings emitted.
\<close>

definition calculateNextPoint ::
  "real \<Rightarrow> 'a point2_scheme \<Rightarrow> real \<Rightarrow> point2 \<times> diagnostic list" where
  "calculateNextPoint baseRadius prevPoint targetY =
     (let distance = baseRadius * 1.3;
          dy = targetY - py prevPoint;
          discriminant = distance * distance - dy * dy
      in if discriminant \<ge> 0
         then (let dx = sqrt discriminant
               in (\<lparr>px = px prevPoint + dx, py = targetY\<rparr>, []))
         else (\<lparr>px = px prevPoint, py = targetY\<rparr>,
               [DistanceUnsatisfiable distance dy]))"

text \<open>\<open>tableData.map((circumference, index) => ({index: index + 1, radius: ...}))\<close>\<close>

fun radius_map :: "nat \<Rightarrow> real list \<Rightarrow> radius_entry list" where
  "radius_map k [] = []"
| "radius_map k (c # cs) =
     \<lparr>re_index = k + 1, radius = circumferenceToRadius c\<rparr> # radius_map (k + 1) cs"

text \<open>
  The \<open>for\<close> loop of \<open>calculate\<close>: the entries still to visit, the loop counter
  \<open>i\<close>, \<open>this.pointCloud\<close> and the warnings so far.
\<close>

fun calculate_loop ::
  "real \<Rightarrow> radius_entry list \<Rightarrow> nat \<Rightarrow> profile_point list \<Rightarrow> diagnostic list
   \<Rightarrow> profile_point list \<times> diagnostic list" where
  "calculate_loop baseRadius [] i pointCloud warnings = (pointCloud, warnings)"
| "calculate_loop baseRadius (e # es) i pointCloud warnings =
     (if i = 0
      then calculate_loop baseRadius es (i + 1)
             (pointCloud @ [\<lparr>px = 0, py = radius e, index = re_index e\<rparr>]) warnings
      else (let prevPoint = pointCloud ! (i - 1);
                (newPoint, warned) = calculateNextPoint baseRadius prevPoint (radius e)
            in calculate_loop baseRadius es (i + 1)
                 (pointCloud @ [\<lparr>px = px newPoint, py = py newPoint, index = re_index e\<rparr>])
                 (warnings @ warned)))"

text \<open>
  \<open>calculate(tableData)\<close>: the returned point cloud together with the warnings
  written to the console.
\<close>

definition calculate :: "real list \<Rightarrow> profile_point list \<times> diagnostic list" where
  "calculate tableData =
     (if tableData = [] then ([], [])
      else (let radiusArray = radius_map 0 tableData;
                baseRadius = radius (radiusArray ! 0)
            in calculate_loop baseRadius radiusArray 0 [] []))"


subsection \<open>The same computation in double precision\<close>

text \<open>
  A finite double is modelled as the real number it denotes. The two zeros are not
  told apart, and a computation that reaches an infinity or NaN is not followed
  further (\<open>None\<close>).
\<close>
















section \<open>Shape3DRenderer: envelope, surface of revolution, projection\<close>

text \<open>
  \<open>generateEnvelope\<close> compares two objects with \<open>!==\<close>, which in JavaScript compares
  object identity. The 2D points it handles are therefore modelled as objects with an
  address: \<open>addr\<close> is the identity of the object, \<open>px\<close> and \<open>py\<close> its (never mutated)
  fields. An object literal \<open>{x: ..., y: ...}\<close> takes the next unused address, which is
  passed along as \<open>fresh\<close>; \<open>!==\<close> compares addresses.
\<close>

record ref2 = point2 +
  addr :: nat

text \<open>\<open>{x, y, z}\<close>: a rotation, a centroid, a rotated or a projected point.\<close>

record vec3 =
  vx :: real
  vy :: real
  vz :: real

text \<open>
  An element of \<open>points3D\<close>. The ring vertices carry \<open>originalIndex\<close> and
  \<open>rotationIndex\<close>; the cap centre is pushed without them.
\<close>

record vertex = vec3 +
  originalIndex :: "nat option"
  rotationIndex :: "nat option"

record face =
  indices :: "nat list"
  color :: string

text \<open>The fields of the renderer object that the geometry reads or writes.\<close>

record renderer =
  rotation :: vec3
  zoom :: real
  points3D :: "vertex list"
  faces :: "face list"
  centroid :: vec3
  rotationDivisions :: nat
  alphaRadius :: real
  envelopeSmoothing :: real
  canvas_width :: real
  canvas_height :: real

text \<open>\<open>Math.max(1, Math.floor(pointCloud2D.length / 8))\<close>\<close>

definition sampleStep :: "'a list \<Rightarrow> nat" where
  "sampleStep pointCloud2D = max 1 (length pointCloud2D div 8)"

text \<open>
  The sampling loop of \<open>generateEnvelope\<close>:
  \<open>for (let i = 0; i < pointCloud2D.length; i += sampleStep)\<close>.
\<close>

function sample_loop ::
  "real \<Rightarrow> ref2 list \<Rightarrow> nat \<Rightarrow> nat \<Rightarrow> ref2 list \<Rightarrow> nat \<times> ref2 list" where
  "sample_loop alpha pointCloud2D i fresh envelope =
     (if i < length pointCloud2D
      then (let point = pointCloud2D ! i;
                expandedY = py point * alpha
            in sample_loop alpha pointCloud2D (i + sampleStep pointCloud2D) (fresh + 1)
                 (envelope @ [\<lparr>px = px point, py = expandedY, addr = fresh\<rparr>]))
      else (fresh, envelope))"
  by pat_completeness auto
termination
  by (relation "measure (\<lambda>(alpha, pointCloud2D, i, fresh, envelope). length pointCloud2D - i)")
     (auto simp: sampleStep_def)

declare sample_loop.simps [simp del]

text \<open>
  \<open>generateEnvelope\<close> up to, and without, its smoothing step: the value of
  \<open>envelope\<close> after the sampling loop and the conditional push of the last point.
  It is only reached with \<open>pointCloud2D.length >= 2\<close>.
\<close>

definition envelope_before_smoothing ::
  "renderer \<Rightarrow> nat \<Rightarrow> ref2 list \<Rightarrow> nat \<times> ref2 list" where
  "envelope_before_smoothing this fresh pointCloud2D =
     (let (fresh1, envelope) = sample_loop (alphaRadius this) pointCloud2D 0 fresh []
      in if addr (envelope ! (length envelope - 1))
              \<noteq> addr (pointCloud2D ! (length pointCloud2D - 1))
         then (let lastPoint = pointCloud2D ! (length pointCloud2D - 1)
               in (fresh1 + 1,
                   envelope @ [\<lparr>px = px lastPoint, py = py lastPoint * alphaRadius this,
                                addr = fresh1\<rparr>]))
         else (fresh1, envelope))"

text \<open>
  \<open>smoothEnvelope\<close>: a short envelope is returned as it is (the same objects);
  otherwise every point is replaced by a new object.
\<close>

definition smoothEnvelope :: "renderer \<Rightarrow> nat \<Rightarrow> ref2 list \<Rightarrow> nat \<times> ref2 list" where
  "smoothEnvelope this fresh envelope =
     (if length envelope < 3 then (fresh, envelope)
      else (fresh + length envelope,
            map (\<lambda>i. let prev = envelope ! nat (max 0 (int i - 1));
                         curr = envelope ! i;
                         next = envelope ! min (length envelope - 1) (i + 1);
                         weight = envelopeSmoothing this
                     in \<lparr>px = px curr * (1 - weight) + (px prev + px next) * weight / 2,
                         py = py curr * (1 - weight) + (py prev + py next) * weight / 2,
                         addr = fresh + i\<rparr>)
                [0..<length envelope]))"

definition generateEnvelope :: "renderer \<Rightarrow> nat \<Rightarrow> ref2 list \<Rightarrow> nat \<times> ref2 list" where
  "generateEnvelope this fresh pointCloud2D =
     (if length pointCloud2D < 2 then (fresh, pointCloud2D)
      else (let (fresh1, envelope) = envelope_before_smoothing this fresh pointCloud2D
            in if envelopeSmoothing this > 0 then smoothEnvelope this fresh1 envelope
               else (fresh1, envelope)))"

text \<open>
  \<open>generate3DPoints\<close>: \<open>forEach\<close> over the points with their index, and inside it the
  loop over the angular steps. The division by \<open>divisions\<close> is only evaluated inside
  that loop, where \<open>divisions > 0\<close>.
\<close>

definition generate3DPoints :: "nat \<Rightarrow> 'a point2_scheme list \<Rightarrow> vertex list" where
  "generate3DPoints divisions pointCloud2D =
     concat (map (\<lambda>pointIndex.
        let point = pointCloud2D ! pointIndex;
            x2D = px point;
            y2D = py point
        in map (\<lambda>i. let angle = (2 * pi * real i) / real divisions
                     in \<lparr>vx = x2D, vy = y2D * cos angle, vz = y2D * sin angle,
                         originalIndex = Some pointIndex, rotationIndex = Some i\<rparr>)
               [0..<divisions])
        [0..<length pointCloud2D])"

text \<open>Decimal rendering of a non-negative integer inside a template string.\<close>

fun show_nat :: "nat \<Rightarrow> string" where
  "show_nat n =
     (if n < 10 then [char_of (48 + n)]
      else show_nat (n div 10) @ [char_of (48 + n mod 10)])"

declare show_nat.simps [simp del]

definition getColorForFace :: "nat \<Rightarrow> nat \<Rightarrow> string" where
  "getColorForFace ringIndex segmentIndex =
     (let hue = (ringIndex * 30 + segmentIndex * 5) mod 360
      in ''hsl('' @ show_nat hue @ '', 70%, 60%)'')"

text \<open>
  \<open>generateMesh\<close> returns the faces and, since it may push the cap centre onto
  \<open>this.points3D\<close>, the renderer.
\<close>

definition side_faces :: "nat \<Rightarrow> nat \<Rightarrow> face list" where
  "side_faces divisions pointCount =
     concat (map (\<lambda>i. concat (map (\<lambda>j.
        let nextJ = (j + 1) mod divisions;
            idx1 = i * divisions + j;
            idx2 = i * divisions + nextJ;
            idx3 = (i + 1) * divisions + nextJ;
            idx4 = (i + 1) * divisions + j
        in [\<lparr>indices = [idx1, idx2, idx3], color = getColorForFace i j\<rparr>,
            \<lparr>indices = [idx1, idx3, idx4], color = getColorForFace i j\<rparr>])
        [0..<divisions]))
        [0..<pointCount - 1])"

definition cap_faces :: "nat \<Rightarrow> nat \<Rightarrow> face list" where
  "cap_faces divisions centerIndex =
     map (\<lambda>j. let nextJ = (j + 1) mod divisions
              in \<lparr>indices = [centerIndex, nextJ, j], color = ''#666666''\<rparr>)
         [0..<divisions]"

definition generateMesh :: "renderer \<Rightarrow> 'a point2_scheme list \<Rightarrow> face list \<times> renderer" where
  "generateMesh this pointCloud2D =
     (let divisions = rotationDivisions this;
          pointCount = length pointCloud2D;
          sides = side_faces divisions pointCount
      in if length pointCloud2D > 0 \<and> px (pointCloud2D ! 0) \<noteq> 0
         then (let centerIndex = length (points3D this);
                   this1 = this\<lparr>points3D := points3D this @
                             [\<lparr>vx = px (pointCloud2D ! 0), vy = 0, vz = 0,
                               originalIndex = None, rotationIndex = None\<rparr>]\<rparr>
               in (sides @ cap_faces divisions centerIndex, this1))
         else (sides, this))"

text \<open>\<open>calculateCentroid\<close>: three running sums over \<open>this.points3D\<close>.\<close>

definition calculateCentroid :: "renderer \<Rightarrow> vec3" where
  "calculateCentroid this =
     (if length (points3D this) = 0 then \<lparr>vx = 0, vy = 0, vz = 0\<rparr>
      else (let sumX = foldl (\<lambda>s point. s + vx point) 0 (points3D this);
                sumY = foldl (\<lambda>s point. s + vy point) 0 (points3D this);
                sumZ = foldl (\<lambda>s point. s + vz point) 0 (points3D this)
            in \<lparr>vx = sumX / real (length (points3D this)),
                vy = sumY / real (length (points3D this)),
                vz = sumZ / real (length (points3D this))\<rparr>))"

text \<open>
  Steps 1 to 3 of \<open>generateShape\<close>, which work on the envelope: the ring vertices,
  the mesh (with the cap centre pushed by \<open>generateMesh\<close>), then the centroid.
\<close>

definition shape_of_envelope :: "renderer \<Rightarrow> 'a point2_scheme list \<Rightarrow> renderer" where
  "shape_of_envelope this envelopePoints =
     (let this1 = this\<lparr>points3D := generate3DPoints (rotationDivisions this) envelopePoints\<rparr>;
          (fs, this2) = generateMesh this1 envelopePoints;
          this3 = this2\<lparr>faces := fs\<rparr>
      in this3\<lparr>centroid := calculateCentroid this3\<rparr>)"

text \<open>
  \<open>generateShape\<close>: the returned \<open>{points, faces, centroid}\<close> are the fields of the
  renderer after the call.
\<close>

definition generateShape :: "renderer \<Rightarrow> nat \<Rightarrow> ref2 list \<Rightarrow> nat \<times> renderer" where
  "generateShape this fresh pointCloud2D =
     (let (fresh1, envelopePoints) = generateEnvelope this fresh pointCloud2D
      in (fresh1, shape_of_envelope this envelopePoints))"

text \<open>The renderer as the constructor leaves it, for a canvas of the given size.\<close>

definition initial_renderer :: "real \<Rightarrow> real \<Rightarrow> renderer" where
  "initial_renderer width height =
     \<lparr>rotation = \<lparr>vx = 0, vy = 0, vz = 0\<rparr>,
      zoom = 1,
      points3D = [],
      faces = [],
      centroid = \<lparr>vx = 0, vy = 0, vz = 0\<rparr>,
      rotationDivisions = 16,
      alphaRadius = 1.5,
      envelopeSmoothing = 0.3,
      canvas_width = width,
      canvas_height = height\<rparr>"

section \<open>Rotation, projection and drawing\<close>

text \<open>\<open>rotatePoint\<close>: rotation about the centroid, first about the X axis, then about Y.\<close>

definition rotatePoint :: "renderer \<Rightarrow> 'a vec3_scheme \<Rightarrow> vec3" where
  "rotatePoint this point =
     (let x = vx point - vx (centroid this);
          y = vy point - vy (centroid this);
          z = vz point - vz (centroid this);
          cosX = cos (vx (rotation this));
          sinX = sin (vx (rotation this));
          y1 = y * cosX - z * sinX;
          z1 = y * sinX + z * cosX;
          cosY = cos (vy (rotation this));
          sinY = sin (vy (rotation this));
          x2 = x * cosY + z1 * sinY;
          z2 = - x * sinY + z1 * cosY
      in \<lparr>vx = x2 + vx (centroid this),
          vy = y1 + vy (centroid this),
          vz = z2 + vz (centroid this)\<rparr>)"

text \<open>
  Division of JavaScript numbers, over the reals: a zero divisor gives an infinity or
  NaN, which is no real number, hence \<open>None\<close>.
\<close>

definition js_div :: "real \<Rightarrow> real \<Rightarrow> real option" where
  "js_div a b = (if b = 0 then None else Some (a / b))"

text \<open>
  \<open>project3DTo2D\<close>. When the quotient is not a number, both screen coordinates
  computed from it are not numbers either, and the result is \<open>None\<close>.
\<close>

definition project3DTo2D :: "renderer \<Rightarrow> 'a vec3_scheme \<Rightarrow> vec3 option" where
  "project3DTo2D this point =
     (let rotated = rotatePoint this point;
          relX = vx rotated - vx (centroid this);
          relY = vy rotated - vy (centroid this);
          relZ = vz rotated - vz (centroid this);
          perspective = 500
      in case js_div perspective (perspective + relZ) of
           None \<Rightarrow> None
         | Some q \<Rightarrow>
             (let scale = q * zoom this * 50;
                  x2D = canvas_width this / 2 + relX * scale;
                  y2D = canvas_height this / 2 - relY * scale
              in Some \<lparr>vx = x2D, vy = y2D, vz = relZ\<rparr>))"

text \<open>
  What reaches the canvas: the background fill of \<open>clear\<close>, the text of
  \<open>drawMessage\<close>, and one filled or stroked closed path per drawn face, with the
  projected corners it was built from (\<open>None\<close> for a corner without numeric
  coordinates).
\<close>

datatype draw_op =
    Clear
  | NoDataMessage
  | FillPath string "vec3 option list"
  | StrokePath "vec3 option list"

text \<open>
  How a frame can leave the model: \<open>TypeError\<close> is the exception thrown by reading a
  field of \<open>undefined\<close>; \<open>NotANumber\<close> marks a face depth that is NaN (a face
  without indices). With a NaN depth the order produced by \<open>sort\<close> is not determined;
  the code goes on to fill faces in that order and throws in \<open>drawFace\<close> at the face
  without indices. The model does not follow such a frame beyond the depths: the
  operations it lists are those issued before them. \<open>generateMesh\<close> builds no such
  face.
\<close>

datatype js_failure = TypeError | NotANumber

text \<open>\<open>projectedPoints[idx]\<close>: \<open>undefined\<close> beyond the end of the array.\<close>

definition array_get :: "'a list \<Rightarrow> nat \<Rightarrow> 'a option" where
  "array_get xs idx = (if idx < length xs then Some (xs ! idx) else None)"

text \<open>
  \<open>drawFace\<close> and the body of the \<open>forEach\<close> in \<open>drawWireframe\<close>: nothing is drawn
  when a corner is \<open>undefined\<close>.
\<close>

definition drawFace :: "face \<Rightarrow> vec3 option list \<Rightarrow> draw_op list" where
  "drawFace f projectedPoints =
     (let points = map (array_get projectedPoints) (indices f)
      in if \<not> list_all (\<lambda>p. p \<noteq> None) points then []
         else [FillPath (color f) (map the points)])"

definition drawWireframe :: "renderer \<Rightarrow> vec3 option list \<Rightarrow> draw_op list" where
  "drawWireframe this projectedPoints =
     concat (map (\<lambda>f.
        let points = map (array_get projectedPoints) (indices f)
        in if \<not> list_all (\<lambda>p. p \<noteq> None) points then []
           else [StrokePath (map the points)])
        (faces this))"

text \<open>
  The depth of a face in \<open>render\<close>: the \<open>reduce\<close> over its indices, divided by their
  number. Reading a field of \<open>points3D[idx]\<close> beyond the end of the array throws, and
  so does the whole frame.
\<close>

fun sum_rotated_z :: "renderer \<Rightarrow> real \<Rightarrow> nat list \<Rightarrow> js_failure + real" where
  "sum_rotated_z this acc [] = Inr acc"
| "sum_rotated_z this acc (idx # idxs) =
     (case array_get (points3D this) idx of
        None \<Rightarrow> Inl TypeError
      | Some p \<Rightarrow> (let rotated = rotatePoint this p
                  in sum_rotated_z this (acc + vz rotated) idxs))"

definition face_avgZ :: "renderer \<Rightarrow> face \<Rightarrow> js_failure + real" where
  "face_avgZ this f =
     (case sum_rotated_z this 0 (indices f) of
        Inl e \<Rightarrow> Inl e
      | Inr s \<Rightarrow> (case js_div s (real (length (indices f))) of
                   None \<Rightarrow> Inl NotANumber
                 | Some avgZ \<Rightarrow> Inr avgZ))"

text \<open>\<open>this.faces.map(face => ({face, avgZ}))\<close>, stopping at the first failure.\<close>

fun faces_with_depth :: "renderer \<Rightarrow> face list \<Rightarrow> js_failure + (face \<times> real) list" where
  "faces_with_depth this [] = Inr []"
| "faces_with_depth this (f # fs) =
     (case face_avgZ this f of
        Inl e \<Rightarrow> Inl e
      | Inr avgZ \<Rightarrow> (case faces_with_depth this fs of
                       Inl e \<Rightarrow> Inl e
                     | Inr rest \<Rightarrow> Inr ((f, avgZ) # rest)))"

text \<open>
  \<open>render\<close>: the drawing operations of one frame, in order, and the failure that
  ended the frame early, if any. \<open>Array.prototype.sort\<close> with the comparator
  \<open>a.avgZ - b.avgZ\<close> is a stable ascending sort on \<open>avgZ\<close>.
\<close>

definition render :: "renderer \<Rightarrow> draw_op list \<times> js_failure option" where
  "render this =
     (if length (points3D this) = 0 then ([Clear, NoDataMessage], None)
      else (let projectedPoints = map (project3DTo2D this) (points3D this)
            in case faces_with_depth this (faces this) of
                 Inl e \<Rightarrow> ([Clear], Some e)
               | Inr facesWithDepth \<Rightarrow>
                   (let sorted = sort_key snd facesWithDepth
                    in ([Clear]
                        @ concat (map (\<lambda>(f, avgZ). drawFace f projectedPoints) sorted)
                        @ drawWireframe this projectedPoints, None))))"

section \<open>Properties of the point placement\<close>

lemma calculate_loop_prefix:
  "\<exists>ys. fst (calculate_loop b es i pc w) = pc @ ys \<and> length ys = length es"
proof (induction es arbitrary: i pc w)
  case Nil
  then show ?case by simp
next
  case (Cons e es)
  show ?case
  proof (cases "i = 0")
    case True
    let ?pc = "pc @ [\<lparr>px = 0, py = radius e, index = re_index e\<rparr>]"
    have "\<exists>ys. fst (calculate_loop b es (i + 1) ?pc w) = ?pc @ ys \<and> length ys = length es"
      by (rule Cons.IH)
    then show ?thesis using True by auto
  next
    case False
    obtain np wd where nw: "calculateNextPoint b (pc ! (i - 1)) (radius e) = (np, wd)"
      by (cases "calculateNextPoint b (pc ! (i - 1)) (radius e)")
    let ?pc = "pc @ [\<lparr>px = px np, py = py np, index = re_index e\<rparr>]"
    have "\<exists>ys. fst (calculate_loop b es (i + 1) ?pc (w @ wd)) = ?pc @ ys \<and> length ys = length es"
      by (rule Cons.IH)
    then show ?thesis using False nw by auto
  qed
qed

lemma calculate_loop_length:
  "length (fst (calculate_loop b es i pc w)) = length pc + length es"
  using calculate_loop_prefix [of b es i pc w] by auto

lemma calculate_loop_nth_old:
  "n < length pc \<Longrightarrow> fst (calculate_loop b es i pc w) ! n = pc ! n"
  using calculate_loop_prefix [of b es i pc w] by (auto simp: nth_append)

lemma calculate_loop_warnings_mono:
  "set w \<subseteq> set (snd (calculate_loop b es i pc w))"
proof (induction es arbitrary: i pc w)
  case Nil
  then show ?case by simp
next
  case (Cons e es)
  show ?case
  proof (cases "i = 0")
    case True
    let ?pc = "pc @ [\<lparr>px = 0, py = radius e, index = re_index e\<rparr>]"
    have "set w \<subseteq> set (snd (calculate_loop b es (i + 1) ?pc w))"
      by (rule Cons.IH)
    then show ?thesis using True by auto
  next
    case False
    obtain np wd where nw: "calculateNextPoint b (pc ! (i - 1)) (radius e) = (np, wd)"
      by (cases "calculateNextPoint b (pc ! (i - 1)) (radius e)")
    let ?pc = "pc @ [\<lparr>px = px np, py = py np, index = re_index e\<rparr>]"
    have "set (w @ wd) \<subseteq> set (snd (calculate_loop b es (i + 1) ?pc (w @ wd)))"
      by (rule Cons.IH)
    then show ?thesis using False nw by auto
  qed
qed

lemma calculate_loop_first:
  "es \<noteq> [] \<Longrightarrow>
   px (fst (calculate_loop b es 0 [] w) ! 0) = 0 \<and>
   py (fst (calculate_loop b es 0 [] w) ! 0) = radius (es ! 0)"
  by (cases es) (simp_all add: calculate_loop_nth_old)

lemma calculate_loop_step:
  "length pc = i \<Longrightarrow> k < length es \<Longrightarrow> 0 < i + k \<Longrightarrow>
   px (fst (calculate_loop b es i pc w) ! (i + k)) =
     px (fst (calculateNextPoint b (fst (calculate_loop b es i pc w) ! (i + k - 1)) (radius (es ! k)))) \<and>
   py (fst (calculate_loop b es i pc w) ! (i + k)) =
     py (fst (calculateNextPoint b (fst (calculate_loop b es i pc w) ! (i + k - 1)) (radius (es ! k)))) \<and>
   index (fst (calculate_loop b es i pc w) ! (i + k)) = re_index (es ! k) \<and>
   set (snd (calculateNextPoint b (fst (calculate_loop b es i pc w) ! (i + k - 1)) (radius (es ! k))))
     \<subseteq> set (snd (calculate_loop b es i pc w))"
proof (induction es arbitrary: i pc w k)
  case Nil
  then show ?case by simp
next
  case (Cons e es)
  show ?case
  proof (cases "i = 0")
    case True
    then obtain k' where k: "k = Suc k'" using Cons.prems by (cases k) auto
    let ?pc = "pc @ [\<lparr>px = 0, py = radius e, index = re_index e\<rparr>]"
    have len: "length ?pc = i + 1" using Cons.prems by simp
    have k': "k' < length es" "0 < i + 1 + k'" using Cons.prems k by auto
    note IH = Cons.IH [OF len k', where w = w]
    show ?thesis using IH k True by simp
  next
    case False
    obtain np wd where nw: "calculateNextPoint b (pc ! (i - 1)) (radius e) = (np, wd)"
      by (cases "calculateNextPoint b (pc ! (i - 1)) (radius e)")
    let ?pc = "pc @ [\<lparr>px = px np, py = py np, index = re_index e\<rparr>]"
    have len: "length ?pc = i + 1" using Cons.prems by simp
    show ?thesis
    proof (cases k)
      case 0
      have a: "fst (calculate_loop b es (i + 1) ?pc (w @ wd)) ! i = ?pc ! i"
        using len by (intro calculate_loop_nth_old) simp
      have b: "fst (calculate_loop b es (i + 1) ?pc (w @ wd)) ! (i - 1) = ?pc ! (i - 1)"
        using len by (intro calculate_loop_nth_old) simp
      have c: "set (w @ wd) \<subseteq> set (snd (calculate_loop b es (i + 1) ?pc (w @ wd)))"
        by (rule calculate_loop_warnings_mono)
      have d: "?pc ! (i - 1) = pc ! (i - 1)" using False Cons.prems by (simp add: nth_append)
      have e: "?pc ! i = \<lparr>px = px np, py = py np, index = re_index e\<rparr>"
        using Cons.prems by (simp add: nth_append)
      show ?thesis using False nw 0 a b c d e
        by simp
    next
      case (Suc k')
      have k': "k' < length es" "0 < i + 1 + k'" using Cons.prems Suc by auto
      note IH = Cons.IH [OF len k', where w = "w @ wd"]
      show ?thesis using IH Suc False nw by simp
    qed
  qed
qed


lemma radius_map_length: "length (radius_map k cs) = length cs"
  by (induction cs arbitrary: k) auto

lemma radius_map_nth:
  "n < length cs \<Longrightarrow> radius (radius_map k cs ! n) = cs ! n / (2 * pi)
     \<and> re_index (radius_map k cs ! n) = k + n + 1"
proof (induction cs arbitrary: k n)
  case Nil
  then show ?case by simp
next
  case (Cons c cs)
  then show ?case by (cases n) (auto simp: circumferenceToRadius_def)
qed

lemma calculateNextPoint_py: "py (fst (calculateNextPoint b p t)) = t"
  by (simp add: calculateNextPoint_def Let_def)

lemma calculateNextPoint_px_ge: "px p \<le> px (fst (calculateNextPoint b p t))"
  by (simp add: calculateNextPoint_def Let_def)

lemma calculate_unfold:
  "tableData \<noteq> [] \<Longrightarrow>
   calculate tableData =
     calculate_loop (tableData ! 0 / (2 * pi)) (radius_map 0 tableData) 0 [] []"
  using radius_map_nth [of 0 tableData 0] by (simp add: calculate_def Let_def)

lemma calculate_length:
  "length (fst (calculate tableData)) = length tableData"
  by (cases "tableData = []")
     (simp_all add: calculate_unfold calculate_loop_length radius_map_length, simp add: calculate_def)

lemma calculate_first:
  assumes "tableData \<noteq> []"
  shows "px (fst (calculate tableData) ! 0) = 0 \<and>
         py (fst (calculate tableData) ! 0) = tableData ! 0 / (2 * pi)"
proof -
  have ne: "radius_map 0 tableData \<noteq> []"
    using assms radius_map_length [of 0 tableData] by auto
  show ?thesis
    using calculate_loop_first [OF ne] radius_map_nth [of 0 tableData 0] assms
    by (simp add: calculate_unfold)
qed

lemma calculate_step:
  assumes "Suc i < length tableData"
  shows "px (fst (calculate tableData) ! Suc i) =
           px (fst (calculateNextPoint (tableData ! 0 / (2 * pi)) (fst (calculate tableData) ! i)
                 (tableData ! Suc i / (2 * pi)))) \<and>
         py (fst (calculate tableData) ! Suc i) = tableData ! Suc i / (2 * pi) \<and>
         set (snd (calculateNextPoint (tableData ! 0 / (2 * pi)) (fst (calculate tableData) ! i)
                 (tableData ! Suc i / (2 * pi))))
           \<subseteq> set (snd (calculate tableData))"
proof -
  have ne: "tableData \<noteq> []" using assms by auto
  have k: "Suc i < length (radius_map 0 tableData)"
    using assms by (simp add: radius_map_length)
  have "length ([] :: profile_point list) = 0" by simp
  from calculate_loop_step [OF this k, of "tableData ! 0 / (2 * pi)" "[]"]
  show ?thesis
    using radius_map_nth [of "Suc i" tableData 0] assms
    by (simp add: calculate_unfold [OF ne] calculateNextPoint_py)
qed

lemma calculate_py:
  assumes "i < length tableData"
  shows "py (fst (calculate tableData) ! i) = tableData ! i / (2 * pi)"
proof (cases i)
  case 0
  then show ?thesis using calculate_first [of tableData] assms by auto
next
  case (Suc j)
  then show ?thesis using calculate_step [of j tableData] assms by simp
qed

lemma calculate_px_mono:
  assumes "Suc i < length tableData"
  shows "px (fst (calculate tableData) ! i) \<le> px (fst (calculate tableData) ! Suc i)"
  using calculate_step [OF assms] calculateNextPoint_px_ge by simp

text \<open>
  Claim C3. For a non-empty sequence of magnitudes, \<open>calculate\<close> returns as many
  points as it was given magnitudes; the first point is \<open>(0, magnitudes[0] / (2 pi))\<close>;
  the \<open>y\<close> of every point is its magnitude divided by \<open>2 pi\<close>; and the \<open>x\<close> values
  never decrease along the profile, whichever branch of \<open>calculateNextPoint\<close> placed
  each point.
\<close>

theorem calculate_profile:
  assumes "tableData \<noteq> []"
  shows "length (fst (calculate tableData)) = length tableData \<and>
         px (fst (calculate tableData) ! 0) = 0 \<and>
         py (fst (calculate tableData) ! 0) = tableData ! 0 / (2 * pi) \<and>
         (\<forall>i < length tableData. py (fst (calculate tableData) ! i) = tableData ! i / (2 * pi)) \<and>
         sorted (map px (fst (calculate tableData)))"
proof -
  have "sorted (map px (fst (calculate tableData)))"
    unfolding sorted_iff_nth_Suc
    using calculate_px_mono [of _ tableData] by (simp add: calculate_length)
  then show ?thesis
    using calculate_first [OF assms] calculate_py [of _ tableData]
    by (simp add: calculate_length)
qed

theorem calculate_profile_witness:
  "[2 * pi, 4 * pi, 2 * pi] \<noteq> [] \<and>
   length (fst (calculate [2 * pi, 4 * pi, 2 * pi])) = 3 \<and>
   px (fst (calculate [2 * pi, 4 * pi, 2 * pi]) ! 0) = 0 \<and>
   py (fst (calculate [2 * pi, 4 * pi, 2 * pi]) ! 0) = 1 \<and>
   py (fst (calculate [2 * pi, 4 * pi, 2 * pi]) ! 1) = 2 \<and>
   sorted (map px (fst (calculate [2 * pi, 4 * pi, 2 * pi])))"
  using calculate_profile [of "[2 * pi, 4 * pi, 2 * pi]"] by simp




subsection \<open>The distance in double precision\<close>
















text \<open>
  Claim C4. When the discriminant of the step from point \<open>i\<close> to point \<open>i + 1\<close> is
  negative, the new point keeps the \<open>x\<close> of the previous one and takes the target
  radius as \<open>y\<close>, the warning for this step is among the warnings of the run, and the
  run still returns one point per magnitude. The instance at the magnitudes
  \<open>[2 pi, 2 pi * 10]\<close> follows the theorem.
\<close>

theorem placement_fallback:
  assumes "Suc i < length magnitudes"
    and "(magnitudes ! 0 / (2 * pi) * 1.3) * (magnitudes ! 0 / (2 * pi) * 1.3)
           - (magnitudes ! Suc i / (2 * pi) - magnitudes ! i / (2 * pi))
             * (magnitudes ! Suc i / (2 * pi) - magnitudes ! i / (2 * pi)) < 0"
  shows "px (fst (calculate magnitudes) ! Suc i) = px (fst (calculate magnitudes) ! i) \<and>
         py (fst (calculate magnitudes) ! Suc i) = magnitudes ! Suc i / (2 * pi) \<and>
         DistanceUnsatisfiable (magnitudes ! 0 / (2 * pi) * 1.3)
             (magnitudes ! Suc i / (2 * pi) - magnitudes ! i / (2 * pi))
           \<in> set (snd (calculate magnitudes)) \<and>
         length (fst (calculate magnitudes)) = length magnitudes"
proof -
  let ?R = "fst (calculate magnitudes)"
  have yi: "py (?R ! i) = magnitudes ! i / (2 * pi)"
    using calculate_py [of i magnitudes] assms(1) by simp
  have neg: "\<not> 0 \<le> (magnitudes ! 0 / (2 * pi) * 1.3) * (magnitudes ! 0 / (2 * pi) * 1.3)
           - (magnitudes ! Suc i / (2 * pi) - magnitudes ! i / (2 * pi))
             * (magnitudes ! Suc i / (2 * pi) - magnitudes ! i / (2 * pi))"
    using assms(2) by simp
  have nx: "calculateNextPoint (magnitudes ! 0 / (2 * pi)) (?R ! i) (magnitudes ! Suc i / (2 * pi))
      = (\<lparr>px = px (?R ! i), py = magnitudes ! Suc i / (2 * pi)\<rparr>,
         [DistanceUnsatisfiable (magnitudes ! 0 / (2 * pi) * 1.3)
             (magnitudes ! Suc i / (2 * pi) - magnitudes ! i / (2 * pi))])"
    unfolding calculateNextPoint_def Let_def yi using neg by (simp only: if_False)
  show ?thesis
    using calculate_step [OF assms(1)] unfolding nx
    by (simp add: calculate_length)
qed

theorem placement_fallback_witness:
  "Suc 0 < length [2 * pi, 2 * pi * 10] \<and>
   ([2 * pi, 2 * pi * 10] ! 0 / (2 * pi) * 1.3) * ([2 * pi, 2 * pi * 10] ! 0 / (2 * pi) * 1.3)
      - ([2 * pi, 2 * pi * 10] ! Suc 0 / (2 * pi) - [2 * pi, 2 * pi * 10] ! 0 / (2 * pi))
        * ([2 * pi, 2 * pi * 10] ! Suc 0 / (2 * pi) - [2 * pi, 2 * pi * 10] ! 0 / (2 * pi)) < 0 \<and>
   px (fst (calculate [2 * pi, 2 * pi * 10]) ! Suc 0) = px (fst (calculate [2 * pi, 2 * pi * 10]) ! 0) \<and>
   py (fst (calculate [2 * pi, 2 * pi * 10]) ! Suc 0) = 10 \<and>
   DistanceUnsatisfiable 1.3 9 \<in> set (snd (calculate [2 * pi, 2 * pi * 10])) \<and>
   length (fst (calculate [2 * pi, 2 * pi * 10])) = 2"
  using placement_fallback [of 0 "[2 * pi, 2 * pi * 10]"] by simp

section \<open>Properties of the envelope\<close>

lemma sample_loop_addrs:
  "fresh0 \<le> fresh \<Longrightarrow> \<forall>p \<in> set envelope. fresh0 \<le> addr p \<Longrightarrow>
   \<forall>p \<in> set (snd (sample_loop alpha pc i fresh envelope)). fresh0 \<le> addr p"
proof (induction alpha pc i fresh envelope rule: sample_loop.induct)
  case (1 alpha pc i fresh envelope)
  show ?case
  proof (cases "i < length pc")
    case True
    let ?env = "envelope @ [\<lparr>px = px (pc ! i), py = py (pc ! i) * alpha, addr = fresh\<rparr>]"
    have "\<forall>p \<in> set (snd (sample_loop alpha pc (i + sampleStep pc) (fresh + 1) ?env)). fresh0 \<le> addr p"
      using "1.prems" True by (intro "1.IH") auto
    then show ?thesis using True by (subst sample_loop.simps) (simp add: Let_def)
  next
    case False
    then show ?thesis using "1.prems" by (subst sample_loop.simps) simp
  qed
qed

lemma sample_loop_nonempty:
  "i < length pc \<or> envelope \<noteq> [] \<Longrightarrow> snd (sample_loop alpha pc i fresh envelope) \<noteq> []"
proof (induction alpha pc i fresh envelope rule: sample_loop.induct)
  case (1 alpha pc i fresh envelope)
  show ?case
  proof (cases "i < length pc")
    case True
    let ?env = "envelope @ [\<lparr>px = px (pc ! i), py = py (pc ! i) * alpha, addr = fresh\<rparr>]"
    have "snd (sample_loop alpha pc (i + sampleStep pc) (fresh + 1) ?env) \<noteq> []"
      using True by (intro "1.IH") auto
    then show ?thesis using True by (subst sample_loop.simps) (simp add: Let_def)
  next
    case False
    then show ?thesis using "1.prems" by (subst sample_loop.simps) simp
  qed
qed

text \<open>
  The objects pushed by the sampling loop are new, so the last of them is never the
  last object of the input: the guard of the extra push holds on every input whose
  addresses are in use (below \<open>fresh\<close>), and the last point is pushed a second time
  whenever the loop has already visited it.
\<close>

lemma envelope_last_always_appended:
  assumes "2 \<le> length pointCloud2D"
    and "\<forall>p \<in> set pointCloud2D. addr p < fresh"
  shows "snd (envelope_before_smoothing this fresh pointCloud2D) =
           snd (sample_loop (alphaRadius this) pointCloud2D 0 fresh [])
           @ [\<lparr>px = px (pointCloud2D ! (length pointCloud2D - 1)),
               py = py (pointCloud2D ! (length pointCloud2D - 1)) * alphaRadius this,
               addr = fst (sample_loop (alphaRadius this) pointCloud2D 0 fresh [])\<rparr>]"
proof -
  let ?sl = "sample_loop (alphaRadius this) pointCloud2D 0 fresh []"
  have ne0: "pointCloud2D \<noteq> []" using assms(1) by auto
  have ne: "snd ?sl \<noteq> []" using ne0 by (intro sample_loop_nonempty) simp
  then have "snd ?sl ! (length (snd ?sl) - 1) \<in> set (snd ?sl)" by simp
  moreover have "\<forall>p \<in> set (snd ?sl). fresh \<le> addr p"
    by (intro sample_loop_addrs) simp_all
  ultimately have a: "fresh \<le> addr (snd ?sl ! (length (snd ?sl) - 1))" by blast
  have "pointCloud2D ! (length pointCloud2D - 1) \<in> set pointCloud2D"
    using ne0 by simp
  then have b: "addr (pointCloud2D ! (length pointCloud2D - 1)) < fresh"
    using assms(2) by blast
  show ?thesis using a b
    by (simp add: envelope_before_smoothing_def Let_def split_beta)
qed

text \<open>
  Claim C1, evaluated on a profile of two points, \<open>(0, 1)\<close> and \<open>(1, 2)\<close>. The
  stride is 1 and the loop visits both points, yet the envelope before smoothing has
  three points: the last point, scaled to \<open>(1, 3)\<close>, is there twice.
\<close>

theorem envelope_two_points_last_twice:
  "envelope_before_smoothing (initial_renderer 800 600) 2
     [\<lparr>px = 0, py = 1, addr = 0\<rparr>, \<lparr>px = 1, py = 2, addr = 1\<rparr>]
   = (5, [\<lparr>px = 0, py = 1.5, addr = 2\<rparr>, \<lparr>px = 1, py = 3, addr = 3\<rparr>,
          \<lparr>px = 1, py = 3, addr = 4\<rparr>])"
  by (simp add: envelope_before_smoothing_def initial_renderer_def sample_loop.simps
      sampleStep_def)

text \<open>
  On the same profile the returned envelope therefore has three smoothed points; an
  envelope of two points would have been returned unsmoothed.
\<close>

lemma envelope_two_points_smoothed:
  "map (\<lambda>p. (px p, py p)) (snd (generateEnvelope (initial_renderer 800 600) 2
     [\<lparr>px = 0, py = 1, addr = 0\<rparr>, \<lparr>px = 1, py = 2, addr = 1\<rparr>]))
   = [(0.15, 1.725), (0.85, 2.775), (1, 3)]"
  by (simp add: generateEnvelope_def smoothEnvelope_def envelope_before_smoothing_def
      initial_renderer_def sample_loop.simps sampleStep_def upt_conv_Cons)

section \<open>Properties of the mesh\<close>

lemma concat_uniform_length:
  "(\<And>i. i < n \<Longrightarrow> length (f i) = d) \<Longrightarrow> length (concat (map f [0..<n])) = n * d"
  by (induction n) auto

lemma concat_uniform_nth:
  "(\<And>i. i < n \<Longrightarrow> length (f i) = d) \<Longrightarrow> k < n \<Longrightarrow> j < d \<Longrightarrow>
   concat (map f [0..<n]) ! (k * d + j) = f k ! j"
proof (induction n)
  case 0
  then show ?case by simp
next
  case (Suc n)
  have len: "length (concat (map f [0..<n])) = n * d"
    using Suc.prems(1) by (intro concat_uniform_length) simp
  show ?case
  proof (cases "k < n")
    case True
    have "k * d + j < Suc k * d" using Suc.prems(3) by simp
    also have "Suc k * d \<le> n * d" using True by (intro mult_le_mono1) simp
    finally have "k * d + j < n * d" .
    moreover have "concat (map f [0..<n]) ! (k * d + j) = f k ! j"
      using Suc.prems True by (intro Suc.IH) simp_all
    ultimately show ?thesis using len by (simp add: nth_append)
  next
    case False
    then have "k = n" using Suc.prems(2) by simp
    then show ?thesis using len by (simp add: nth_append)
  qed
qed


lemma grid_index_bound: "k < n \<Longrightarrow> j < d \<Longrightarrow> k * d + j < n * (d::nat)"
proof -
  assume a: "k < n" "j < d"
  have "k * d + j < Suc k * d" using a(2) by simp
  also have "Suc k * d \<le> n * d" using a(1) by (intro mult_le_mono1) simp
  finally show ?thesis .
qed

lemma generate3DPoints_length:
  "length (generate3DPoints divisions env) = length env * divisions"
  unfolding generate3DPoints_def
  by (rule concat_uniform_length) (simp add: Let_def)

lemma generate3DPoints_nth:
  assumes "k < length env" and "j < divisions"
  shows "generate3DPoints divisions env ! (k * divisions + j) =
           \<lparr>vx = px (env ! k),
            vy = py (env ! k) * cos ((2 * pi * real j) / real divisions),
            vz = py (env ! k) * sin ((2 * pi * real j) / real divisions),
            originalIndex = Some k, rotationIndex = Some j\<rparr>"
proof -
  let ?f = "\<lambda>pointIndex.
        let point = env ! pointIndex;
            x2D = px point;
            y2D = py point
        in map (\<lambda>i. let angle = (2 * pi * real i) / real divisions
                     in \<lparr>vx = x2D, vy = y2D * cos angle, vz = y2D * sin angle,
                         originalIndex = Some pointIndex, rotationIndex = Some i\<rparr>)
               [0..<divisions]"
  have "concat (map ?f [0..<length env]) ! (k * divisions + j) = ?f k ! j"
    using assms by (intro concat_uniform_nth) (simp_all add: Let_def)
  then show ?thesis using assms by (simp add: generate3DPoints_def Let_def)
qed

lemma side_faces_length: "length (side_faces divisions pointCount) = 2 * divisions * (pointCount - 1)"
proof -
  have inner: "\<And>i. length (concat (map (\<lambda>j.
        let nextJ = (j + 1) mod divisions;
            idx1 = i * divisions + j;
            idx2 = i * divisions + nextJ;
            idx3 = (i + 1) * divisions + nextJ;
            idx4 = (i + 1) * divisions + j
        in [\<lparr>indices = [idx1, idx2, idx3], color = getColorForFace i j\<rparr>,
            \<lparr>indices = [idx1, idx3, idx4], color = getColorForFace i j\<rparr>])
        [0..<divisions])) = divisions * 2"
    by (rule concat_uniform_length) (simp add: Let_def)
  have "length (side_faces divisions pointCount) = (pointCount - 1) * (divisions * 2)"
    unfolding side_faces_def by (rule concat_uniform_length) (rule inner)
  then show ?thesis by simp
qed

lemma cap_faces_length: "length (cap_faces divisions centerIndex) = divisions"
  by (simp add: cap_faces_def)

lemma side_faces_indices:
  assumes "f \<in> set (side_faces divisions pointCount)"
  shows "length (indices f) = 3 \<and> (\<forall>idx \<in> set (indices f). idx < pointCount * divisions)"
proof -
  from assms obtain i j where i: "i < pointCount - 1" and j: "j < divisions"
    and f: "f = \<lparr>indices = [i * divisions + j, i * divisions + (j + 1) mod divisions,
                             (i + 1) * divisions + (j + 1) mod divisions],
                  color = getColorForFace i j\<rparr>
          \<or> f = \<lparr>indices = [i * divisions + j, (i + 1) * divisions + (j + 1) mod divisions,
                             (i + 1) * divisions + j],
                  color = getColorForFace i j\<rparr>"
    by (auto simp: side_faces_def Let_def)
  have n: "(j + 1) mod divisions < divisions" using j by simp
  have i0: "i < pointCount" and i1: "i + 1 < pointCount" using i by auto
  note b = grid_index_bound [OF i0 j] grid_index_bound [OF i0 n]
           grid_index_bound [OF i1 j] grid_index_bound [OF i1 n]
  from f show ?thesis using b by auto
qed

lemma cap_faces_indices:
  assumes "f \<in> set (cap_faces divisions centerIndex)" and "divisions \<le> centerIndex"
  shows "length (indices f) = 3 \<and> (\<forall>idx \<in> set (indices f). idx < centerIndex + 1)"
proof -
  from assms(1) obtain j where j: "j < divisions"
    and f: "f = \<lparr>indices = [centerIndex, (j + 1) mod divisions, j], color = ''#666666''\<rparr>"
    by (auto simp: cap_faces_def Let_def)
  have "(j + 1) mod divisions < divisions" using j by simp
  then have n: "Suc j mod divisions < Suc centerIndex" using assms(2) by simp
  show ?thesis using f j n assms(2) by auto
qed

lemma shape_points3D:
  "points3D (shape_of_envelope this env) =
     generate3DPoints (rotationDivisions this) env
     @ (if env \<noteq> [] \<and> px (env ! 0) \<noteq> 0
        then [\<lparr>vx = px (env ! 0), vy = 0, vz = 0, originalIndex = None, rotationIndex = None\<rparr>]
        else [])"
  by (simp add: shape_of_envelope_def generateMesh_def Let_def)

lemma shape_faces:
  "faces (shape_of_envelope this env) =
     side_faces (rotationDivisions this) (length env)
     @ (if env \<noteq> [] \<and> px (env ! 0) \<noteq> 0
        then cap_faces (rotationDivisions this) (length env * rotationDivisions this)
        else [])"
  by (simp add: shape_of_envelope_def generateMesh_def Let_def generate3DPoints_length)

lemma shape_centroid:
  "centroid (shape_of_envelope this env) = calculateCentroid (shape_of_envelope this env)"
  by (simp add: shape_of_envelope_def generateMesh_def Let_def calculateCentroid_def)

lemma shape_other_fields:
  "rotation (shape_of_envelope this env) = rotation this \<and>
   zoom (shape_of_envelope this env) = zoom this \<and>
   canvas_width (shape_of_envelope this env) = canvas_width this \<and>
   canvas_height (shape_of_envelope this env) = canvas_height this"
  by (simp add: shape_of_envelope_def generateMesh_def Let_def)


text \<open>
  Claim C5. For an envelope of length \<open>L \<ge> 1\<close> and \<open>D\<close> divisions, the shape has
  \<open>L * D\<close> vertices, and one more exactly when the \<open>x\<close> of the first envelope point
  is not zero; its faces are the \<open>2 * D * (L - 1)\<close> side faces followed by the cap
  faces, \<open>D\<close> of them when the cap centre was added and none otherwise; and every face
  has three indices, each of them a position of the vertex list.
\<close>

theorem mesh_counts:
  assumes "1 \<le> length env"
  shows "length (points3D (shape_of_envelope this env))
           = length env * rotationDivisions this + (if px (env ! 0) \<noteq> 0 then 1 else 0) \<and>
         faces (shape_of_envelope this env)
           = side_faces (rotationDivisions this) (length env)
             @ (if px (env ! 0) \<noteq> 0
                then cap_faces (rotationDivisions this) (length env * rotationDivisions this)
                else []) \<and>
         length (side_faces (rotationDivisions this) (length env))
           = 2 * rotationDivisions this * (length env - 1) \<and>
         length (if px (env ! 0) \<noteq> 0
                 then cap_faces (rotationDivisions this) (length env * rotationDivisions this)
                 else [])
           = (if px (env ! 0) \<noteq> 0 then rotationDivisions this else 0) \<and>
         (\<forall>f \<in> set (faces (shape_of_envelope this env)).
            length (indices f) = 3 \<and>
            (\<forall>idx \<in> set (indices f). idx < length (points3D (shape_of_envelope this env))))"
proof -
  let ?D = "rotationDivisions this"
  let ?L = "length env"
  have ne: "env \<noteq> []" using assms by auto
  have le: "?D \<le> ?L * ?D" using assms by simp
  have len: "length (points3D (shape_of_envelope this env))
           = ?L * ?D + (if px (env ! 0) \<noteq> 0 then 1 else 0)"
    using ne by (simp add: shape_points3D generate3DPoints_length)
  have fs: "faces (shape_of_envelope this env)
           = side_faces ?D ?L @ (if px (env ! 0) \<noteq> 0 then cap_faces ?D (?L * ?D) else [])"
    using ne by (simp add: shape_faces)
  have valid: "length (indices f) = 3 \<and>
       (\<forall>idx \<in> set (indices f). idx < length (points3D (shape_of_envelope this env)))"
    if f: "f \<in> set (faces (shape_of_envelope this env))" for f
  proof (cases "f \<in> set (side_faces ?D ?L)")
    case True
    from side_faces_indices [OF True] show ?thesis unfolding len by auto
  next
    case False
    with f fs have cap: "px (env ! 0) \<noteq> 0" and "f \<in> set (cap_faces ?D (?L * ?D))"
      by (auto split: if_splits)
    from cap_faces_indices [OF this(2) le] cap show ?thesis unfolding len by auto
  qed
  show ?thesis
    using len fs valid by (simp add: side_faces_length cap_faces_length)
qed

theorem mesh_counts_witness:
  "1 \<le> length [\<lparr>px = 1, py = 2\<rparr>, \<lparr>px = 2, py = 3\<rparr>] \<and>
   length (points3D (shape_of_envelope (initial_renderer 800 600)
             [\<lparr>px = 1, py = 2\<rparr>, \<lparr>px = 2, py = 3\<rparr>])) = 33 \<and>
   length (faces (shape_of_envelope (initial_renderer 800 600)
             [\<lparr>px = 1, py = 2\<rparr>, \<lparr>px = 2, py = 3\<rparr>])) = 48"
  using mesh_counts [of "[\<lparr>px = 1, py = 2\<rparr>, \<lparr>px = 2, py = 3\<rparr>]" "initial_renderer 800 600"]
  by (simp add: initial_renderer_def)

text \<open>
  Claim C6. For the envelope point at index \<open>k\<close> and the angular step \<open>j\<close>, the
  vertex at flat index \<open>k * divisions + j\<close> is
  \<open>(p.x, p.y * cos (2 pi j / divisions), p.y * sin (2 pi j / divisions))\<close>, tagged
  with \<open>originalIndex = k\<close> and \<open>rotationIndex = j\<close>. The first
  \<open>length envelope * divisions\<close> vertices are these ring vertices, and what follows
  them is the cap centre alone, or nothing.
\<close>

theorem ring_vertices:
  assumes "k < length env" and "j < rotationDivisions this"
  shows "points3D (shape_of_envelope this env) ! (k * rotationDivisions this + j)
           = \<lparr>vx = px (env ! k),
              vy = py (env ! k) * cos ((2 * pi * real j) / real (rotationDivisions this)),
              vz = py (env ! k) * sin ((2 * pi * real j) / real (rotationDivisions this)),
              originalIndex = Some k, rotationIndex = Some j\<rparr> \<and>
         take (length env * rotationDivisions this) (points3D (shape_of_envelope this env))
           = generate3DPoints (rotationDivisions this) env \<and>
         length (generate3DPoints (rotationDivisions this) env)
           = length env * rotationDivisions this \<and>
         drop (length env * rotationDivisions this) (points3D (shape_of_envelope this env))
           = (if px (env ! 0) \<noteq> 0
              then [\<lparr>vx = px (env ! 0), vy = 0, vz = 0,
                      originalIndex = None, rotationIndex = None\<rparr>]
              else [])"
proof -
  have ne: "env \<noteq> []" using assms(1) by auto
  have "k * rotationDivisions this + j < length env * rotationDivisions this"
    using assms by (rule grid_index_bound)
  then have "points3D (shape_of_envelope this env) ! (k * rotationDivisions this + j)
      = generate3DPoints (rotationDivisions this) env ! (k * rotationDivisions this + j)"
    by (simp add: shape_points3D nth_append generate3DPoints_length)
  then show ?thesis
    using ne generate3DPoints_nth [OF assms]
    by (simp add: shape_points3D generate3DPoints_length)
qed

theorem ring_vertices_witness:
  "(0::nat) < length [\<lparr>px = 1, py = 2\<rparr>] \<and> (0::nat) < rotationDivisions (initial_renderer 800 600) \<and>
   points3D (shape_of_envelope (initial_renderer 800 600) [\<lparr>px = 1, py = 2\<rparr>]) ! 0
     = \<lparr>vx = 1, vy = 2, vz = 0, originalIndex = Some 0, rotationIndex = Some 0\<rparr> \<and>
   drop 16 (points3D (shape_of_envelope (initial_renderer 800 600) [\<lparr>px = 1, py = 2\<rparr>]))
     = [\<lparr>vx = 1, vy = 0, vz = 0, originalIndex = None, rotationIndex = None\<rparr>]"
  using ring_vertices [of 0 "[\<lparr>px = 1, py = 2\<rparr>]" 0 "initial_renderer 800 600"]
  by (simp add: initial_renderer_def)

lemma foldl_add_sum_list:
  "foldl (\<lambda>s p. s + f p) a xs = a + sum_list (map f xs)"
  by (induction xs arbitrary: a) (auto simp: add.assoc)

lemma calculateCentroid_mean:
  "points3D this \<noteq> [] \<Longrightarrow>
   calculateCentroid this =
     \<lparr>vx = sum_list (map vx (points3D this)) / real (length (points3D this)),
      vy = sum_list (map vy (points3D this)) / real (length (points3D this)),
      vz = sum_list (map vz (points3D this)) / real (length (points3D this))\<rparr>"
  by (simp add: calculateCentroid_def Let_def foldl_add_sum_list)

lemma shape_centroid_mean:
  assumes "points3D (shape_of_envelope this env) \<noteq> []"
  shows "centroid (shape_of_envelope this env) =
     \<lparr>vx = sum_list (map vx (points3D (shape_of_envelope this env)))
            / real (length (points3D (shape_of_envelope this env))),
      vy = sum_list (map vy (points3D (shape_of_envelope this env)))
            / real (length (points3D (shape_of_envelope this env))),
      vz = sum_list (map vz (points3D (shape_of_envelope this env)))
            / real (length (points3D (shape_of_envelope this env)))\<rparr>"
  using calculateCentroid_mean [OF assms] by (simp only: shape_centroid)

lemma generateShape_snd:
  "snd (generateShape this fresh pc) = shape_of_envelope this (snd (generateEnvelope this fresh pc))"
  by (simp add: generateShape_def split_beta)

lemma generateEnvelope_short:
  "length pc < 2 \<Longrightarrow> generateEnvelope this fresh pc = (fresh, pc)"
  by (simp add: generateEnvelope_def)

text \<open>
  Claim C7. After \<open>generateShape\<close>, when there is at least one vertex, each component
  of the centroid is the sum of that component over \<open>points3D\<close> divided by the number
  of vertices; \<open>points3D\<close> are the ring vertices followed by the cap centre when
  \<open>generateMesh\<close> pushed one, so the centroid counts the cap centre.
\<close>

theorem centroid_is_mean:
  assumes "points3D (snd (generateShape this fresh pointCloud2D)) \<noteq> []"
  shows "centroid (snd (generateShape this fresh pointCloud2D)) =
           \<lparr>vx = sum_list (map vx (points3D (snd (generateShape this fresh pointCloud2D))))
                  / real (length (points3D (snd (generateShape this fresh pointCloud2D)))),
            vy = sum_list (map vy (points3D (snd (generateShape this fresh pointCloud2D))))
                  / real (length (points3D (snd (generateShape this fresh pointCloud2D)))),
            vz = sum_list (map vz (points3D (snd (generateShape this fresh pointCloud2D))))
                  / real (length (points3D (snd (generateShape this fresh pointCloud2D))))\<rparr> \<and>
         points3D (snd (generateShape this fresh pointCloud2D)) =
           generate3DPoints (rotationDivisions this) (snd (generateEnvelope this fresh pointCloud2D))
           @ (if snd (generateEnvelope this fresh pointCloud2D) \<noteq> []
                 \<and> px (snd (generateEnvelope this fresh pointCloud2D) ! 0) \<noteq> 0
              then [\<lparr>vx = px (snd (generateEnvelope this fresh pointCloud2D) ! 0), vy = 0, vz = 0,
                      originalIndex = None, rotationIndex = None\<rparr>]
              else [])"
  using shape_centroid_mean [of this "snd (generateEnvelope this fresh pointCloud2D)"] assms
  by (simp only: generateShape_snd shape_points3D simp_thms)

theorem centroid_is_mean_witness:
  "points3D (snd (generateShape (initial_renderer 800 600) 1 [\<lparr>px = 1, py = 2, addr = 0\<rparr>])) \<noteq> [] \<and>
   centroid (snd (generateShape (initial_renderer 800 600) 1 [\<lparr>px = 1, py = 2, addr = 0\<rparr>])) =
     \<lparr>vx = sum_list (map vx (points3D (snd (generateShape (initial_renderer 800 600) 1
                                            [\<lparr>px = 1, py = 2, addr = 0\<rparr>])))) / 17,
      vy = sum_list (map vy (points3D (snd (generateShape (initial_renderer 800 600) 1
                                            [\<lparr>px = 1, py = 2, addr = 0\<rparr>])))) / 17,
      vz = sum_list (map vz (points3D (snd (generateShape (initial_renderer 800 600) 1
                                            [\<lparr>px = 1, py = 2, addr = 0\<rparr>])))) / 17\<rparr>"
proof -
  let ?S = "snd (generateShape (initial_renderer 800 600) 1 [\<lparr>px = 1, py = 2, addr = 0\<rparr>])"
  have len: "length (points3D ?S) = 17"
    by (simp add: generateShape_snd generateEnvelope_short shape_points3D
        generate3DPoints_length initial_renderer_def)
  then have ne: "points3D ?S \<noteq> []" by auto
  show ?thesis using centroid_is_mean [OF ne] ne len by simp
qed

section \<open>Properties of the projection\<close>

text \<open>
  Claim C8. \<open>rotatePoint\<close> moves the point to centroid-relative coordinates, rotates
  about the X axis, then about the Y axis, and moves it back; \<open>rotation.z\<close> has no
  influence. With \<open>relX\<close>, \<open>relY\<close>, \<open>relZ\<close> the rotated centroid-relative
  coordinates and \<open>scale = 500 / (500 + relZ) * zoom * 50\<close>, \<open>project3DTo2D\<close> returns
  \<open>(width / 2 + relX * scale, height / 2 - relY * scale, relZ)\<close>; this is a triple of
  numbers unless \<open>500 + relZ = 0\<close>.
\<close>

theorem projection_formula:
  "let x = vx p - vx (centroid this);
       y = vy p - vy (centroid this);
       z = vz p - vz (centroid this);
       y1 = y * cos (vx (rotation this)) - z * sin (vx (rotation this));
       z1 = y * sin (vx (rotation this)) + z * cos (vx (rotation this));
       relX = x * cos (vy (rotation this)) + z1 * sin (vy (rotation this));
       relY = y1;
       relZ = - x * sin (vy (rotation this)) + z1 * cos (vy (rotation this));
       scale = 500 / (500 + relZ) * zoom this * 50
   in rotatePoint this p
        = \<lparr>vx = relX + vx (centroid this), vy = relY + vy (centroid this),
           vz = relZ + vz (centroid this)\<rparr> \<and>
      project3DTo2D this p
        = (if 500 + relZ = 0 then None
           else Some \<lparr>vx = canvas_width this / 2 + relX * scale,
                      vy = canvas_height this / 2 - relY * scale,
                      vz = relZ\<rparr>) \<and>
      project3DTo2D (this\<lparr>rotation := (rotation this)\<lparr>vz := a\<rparr>\<rparr>) p = project3DTo2D this p"
  by (simp add: Let_def project3DTo2D_def rotatePoint_def js_div_def)

theorem projection_formula_witness:
  "project3DTo2D ((initial_renderer 800 600)
      \<lparr>rotation := \<lparr>vx = pi / 2, vy = pi, vz = 7\<rparr>,
       centroid := \<lparr>vx = 1, vy = 1, vz = 1\<rparr>, zoom := 0.996\<rparr>)
      \<lparr>vx = 2, vy = 3, vz = 5\<rparr>
   = Some \<lparr>vx = 350, vy = 500, vz = - 2\<rparr>"
  using projection_formula [of "\<lparr>vx = 2, vy = 3, vz = 5\<rparr>"
      "(initial_renderer 800 600)
      \<lparr>rotation := \<lparr>vx = pi / 2, vy = pi, vz = 7\<rparr>,
       centroid := \<lparr>vx = 1, vy = 1, vz = 1\<rparr>, zoom := 0.996\<rparr>" 0]
  by (simp add: Let_def initial_renderer_def)

text \<open>
  Claim C10. The division in \<open>project3DTo2D\<close> is not guarded: the result is not a
  triple of numbers exactly when the rotated, centroid-relative \<open>z\<close> is \<open>-500\<close>, and
  there is such an input: the point \<open>(0, 0, -500)\<close> seen from the initial view.
\<close>

theorem projection_zero_divisor:
  "(project3DTo2D this p = None)
     = (500 + (vz (rotatePoint this p) - vz (centroid this)) = 0) \<and>
   vz (rotatePoint (initial_renderer 800 600) \<lparr>vx = 0, vy = 0, vz = - 500\<rparr>)
     - vz (centroid (initial_renderer 800 600)) = - 500 \<and>
   project3DTo2D (initial_renderer 800 600) \<lparr>vx = 0, vy = 0, vz = - 500\<rparr> = None"
  by (simp add: project3DTo2D_def js_div_def Let_def rotatePoint_def initial_renderer_def)

section \<open>Properties of a render frame\<close>

lemma sin_sum_zero: "(\<Sum>i<D. sin (2 * pi * real i / real D)) = 0"
proof (cases "1 < D")
  case True
  have "(\<Sum>k<D. cis (2 * pi * real k / real D)) = (\<Sum>z | z ^ D = 1. z)"
    using True by (intro sum.reindex_bij_betw bij_betw_roots_unity) auto
  also have "\<dots> = 0" using True by (rule sum_roots_unity)
  finally have "Im (\<Sum>k<D. cis (2 * pi * real k / real D)) = 0" by simp
  then show ?thesis by simp
next
  case False
  then have "D = 0 \<or> D = 1" by auto
  then show ?thesis by auto
qed

lemma sin_sum_list_zero:
  "sum_list (map (\<lambda>i. sin ((2 * pi * real i) / real D)) [0..<D]) = 0"
  using sin_sum_zero [of D]
  by (simp add: interv_sum_list_conv_sum_set_nat atLeast0LessThan)

lemma sum_list_concat_map:
  "sum_list (map g (concat (map f xs))) = sum_list (map (\<lambda>x. sum_list (map g (f x))) xs)"
  by (induction xs) auto

lemma generate3DPoints_vz_sum:
  "sum_list (map vz (generate3DPoints divisions env)) = (0::real)"
proof -
  have inner: "sum_list (map vz (map (\<lambda>i. \<lparr>vx = a, vy = y * cos ((2 * pi * real i) / real divisions),
                     vz = y * sin ((2 * pi * real i) / real divisions),
                     originalIndex = Some k, rotationIndex = Some i\<rparr>) [0..<divisions])) = 0"
    for a y k
    using sin_sum_list_zero [of divisions]
    by (simp add: o_def sum_list_const_mult)
  show ?thesis
    unfolding generate3DPoints_def Let_def sum_list_concat_map inner
    by simp
qed


lemma shape_faces_valid:
  assumes "f \<in> set (faces (shape_of_envelope this env))"
  shows "length (indices f) = 3 \<and>
         (\<forall>idx \<in> set (indices f). idx < length (points3D (shape_of_envelope this env)))"
proof (cases "f \<in> set (side_faces (rotationDivisions this) (length env))")
  case True
  from side_faces_indices [OF True] show ?thesis
    by (auto simp: shape_points3D generate3DPoints_length)
next
  case False
  with assms have cap: "env \<noteq> []" "px (env ! 0) \<noteq> 0"
    and f: "f \<in> set (cap_faces (rotationDivisions this) (length env * rotationDivisions this))"
    by (auto simp: shape_faces split: if_splits)
  have "rotationDivisions this \<le> length env * rotationDivisions this"
    using cap(1) by (cases env) auto
  from cap_faces_indices [OF f this] cap show ?thesis
    by (auto simp: shape_points3D generate3DPoints_length)
qed

lemma shape_centroid_z: "vz (centroid (shape_of_envelope this env)) = 0"
proof -
  have "sum_list (map vz (points3D (shape_of_envelope this env))) = 0"
    by (simp add: shape_points3D generate3DPoints_vz_sum)
  then have "vz (calculateCentroid (shape_of_envelope this env)) = 0"
    by (simp add: calculateCentroid_def Let_def foldl_add_sum_list)
  then show ?thesis by (simp only: shape_centroid)
qed

lemma sum_rotated_z_valid:
  "\<forall>idx \<in> set idxs. idx < length (points3D st) \<Longrightarrow>
   sum_rotated_z st acc idxs =
     Inr (acc + sum_list (map (\<lambda>idx. vz (rotatePoint st (points3D st ! idx))) idxs))"
  by (induction idxs arbitrary: acc) (auto simp: array_get_def Let_def)

lemma face_avgZ_valid:
  assumes "length (indices f) = 3"
    and "\<forall>idx \<in> set (indices f). idx < length (points3D st)"
  shows "face_avgZ st f =
           Inr (sum_list (map (\<lambda>idx. vz (rotatePoint st (points3D st ! idx))) (indices f)) / 3)"
  using assms(1) by (simp add: face_avgZ_def sum_rotated_z_valid [OF assms(2)] js_div_def)

lemma faces_with_depth_valid:
  "\<forall>f \<in> set fs. length (indices f) = 3 \<and> (\<forall>idx \<in> set (indices f). idx < length (points3D st)) \<Longrightarrow>
   faces_with_depth st fs =
     Inr (map (\<lambda>f. (f, sum_list (map (\<lambda>idx. vz (rotatePoint st (points3D st ! idx))) (indices f)) / 3)) fs)"
  by (induction fs) (auto simp: face_avgZ_valid)

lemma insort_key_paired:
  "insort_key snd (x, d x) (map (\<lambda>f. (f, d f)) ys) = map (\<lambda>f. (f, d f)) (insort_key d x ys)"
  by (induction ys) auto

lemma sort_key_paired:
  "sort_key snd (map (\<lambda>f. (f, d f)) xs) = map (\<lambda>f. (f, d f)) (sort_key d xs)"
  by (induction xs) (auto simp: insort_key_paired)

lemma drawFace_valid:
  assumes "\<forall>idx \<in> set (indices f). idx < length pp"
  shows "drawFace f pp = [FillPath (color f) (map (\<lambda>idx. pp ! idx) (indices f))]"
proof -
  have "map (array_get pp) (indices f) = map (\<lambda>idx. Some (pp ! idx)) (indices f)"
    using assms by (intro map_cong) (auto simp: array_get_def)
  then show ?thesis by (auto simp: drawFace_def Let_def list_all_iff o_def)
qed

lemma drawWireframe_valid:
  assumes "\<forall>f \<in> set (faces st). \<forall>idx \<in> set (indices f). idx < length pp"
  shows "drawWireframe st pp = map (\<lambda>f. StrokePath (map (\<lambda>idx. pp ! idx) (indices f))) (faces st)"
proof -
  have one: "(let points = map (array_get pp) (indices f)
        in if \<not> list_all (\<lambda>p. p \<noteq> None) points then []
           else [StrokePath (map the points)]) = [StrokePath (map (\<lambda>idx. pp ! idx) (indices f))]"
    if "f \<in> set (faces st)" for f
  proof -
    have "map (array_get pp) (indices f) = map (\<lambda>idx. Some (pp ! idx)) (indices f)"
      using assms that by (intro map_cong) (auto simp: array_get_def)
    then show ?thesis by (auto simp: Let_def list_all_iff o_def)
  qed
  have "drawWireframe st pp
      = concat (map (\<lambda>f. [StrokePath (map (\<lambda>idx. pp ! idx) (indices f))]) (faces st))"
    unfolding drawWireframe_def using one by (intro arg_cong [where f = concat] map_cong) auto
  then show ?thesis by simp
qed

lemma render_valid:
  assumes ne: "points3D st \<noteq> []"
    and valid: "\<forall>f \<in> set (faces st). length (indices f) = 3 \<and>
                  (\<forall>idx \<in> set (indices f). idx < length (points3D st))"
  shows "render st =
     ([Clear]
      @ map (\<lambda>f. FillPath (color f) (map (\<lambda>idx. project3DTo2D st (points3D st ! idx)) (indices f)))
          (sort_key (\<lambda>f. sum_list (map (\<lambda>idx. vz (rotatePoint st (points3D st ! idx))) (indices f)) / 3)
             (faces st))
      @ map (\<lambda>f. StrokePath (map (\<lambda>idx. project3DTo2D st (points3D st ! idx)) (indices f)))
          (faces st),
      None)"
proof -
  let ?pp = "map (project3DTo2D st) (points3D st)"
  let ?d = "\<lambda>f. sum_list (map (\<lambda>idx. vz (rotatePoint st (points3D st ! idx))) (indices f)) / 3"
  have v: "\<forall>f \<in> set (faces st). \<forall>idx \<in> set (indices f). idx < length ?pp"
    using valid by simp
  have nth: "map (\<lambda>idx. ?pp ! idx) (indices f)
      = map (\<lambda>idx. project3DTo2D st (points3D st ! idx)) (indices f)"
    if "f \<in> set (faces st)" for f
    using valid that by (intro map_cong) auto
  have fill: "concat (map (\<lambda>(f, avgZ). drawFace f ?pp) (map (\<lambda>f. (f, ?d f)) (sort_key ?d (faces st))))
      = map (\<lambda>f. FillPath (color f) (map (\<lambda>idx. project3DTo2D st (points3D st ! idx)) (indices f)))
          (sort_key ?d (faces st))"
  proof -
    have "concat (map (\<lambda>(f, avgZ). drawFace f ?pp) (map (\<lambda>f. (f, ?d f)) (sort_key ?d (faces st))))
        = concat (map (\<lambda>f. [FillPath (color f)
              (map (\<lambda>idx. project3DTo2D st (points3D st ! idx)) (indices f))]) (sort_key ?d (faces st)))"
      unfolding map_map o_def
    proof (intro arg_cong [where f = concat] map_cong refl)
      fix f assume "f \<in> set (sort_key ?d (faces st))"
      then have f: "f \<in> set (faces st)" by simp
      then have "\<forall>idx \<in> set (indices f). idx < length ?pp" using v by blast
      from drawFace_valid [OF this] nth [OF f]
      show "(case (f, ?d f) of (f, avgZ) \<Rightarrow> drawFace f ?pp)
          = [FillPath (color f) (map (\<lambda>idx. project3DTo2D st (points3D st ! idx)) (indices f))]"
        by simp
    qed
    then show ?thesis by simp
  qed
  have stroke: "drawWireframe st ?pp
      = map (\<lambda>f. StrokePath (map (\<lambda>idx. project3DTo2D st (points3D st ! idx)) (indices f))) (faces st)"
    unfolding drawWireframe_valid [OF v] using nth by (intro map_cong) auto
  show ?thesis
    using ne
    by (simp add: render_def Let_def faces_with_depth_valid [OF valid] sort_key_paired fill stroke
        del: map_map)
qed


text \<open>
  A generated shape without vertices has no faces, and the frame is the placeholder.
\<close>

lemma render_without_vertices:
  assumes "points3D st = points3D (snd (generateShape this fresh pointCloud2D))"
    and "faces st = faces (snd (generateShape this fresh pointCloud2D))"
    and "points3D st = []"
  shows "faces st = [] \<and> render st = ([Clear, NoDataMessage], None)"
proof -
  let ?env = "snd (generateEnvelope this fresh pointCloud2D)"
  have "f \<notin> set (faces st)" for f
  proof
    assume "f \<in> set (faces st)"
    then have "length (indices f) = 3 \<and> (\<forall>idx \<in> set (indices f). idx < length (points3D st))"
      using shape_faces_valid [of f this ?env] assms(1,2) by (simp add: generateShape_snd)
    then show False using assms(3) by (cases "indices f") auto
  qed
  then have "faces st = []" by (cases "faces st") auto
  then show ?thesis using assms(3) by (simp add: render_def)
qed

text \<open>
  Claim C9. In a frame drawn from a generated shape (whatever the rotation, the zoom
  and the canvas size are by then) with at least one vertex, every face has three
  indices and its depth is the mean of the rotated, centroid-relative \<open>z\<close> of its
  three vertices; after clearing, the faces are filled in ascending order of that
  depth, and only then every face is stroked, in the order of \<open>this.faces\<close>.
  \<open>render\<close> averages the \<open>z\<close> returned by \<open>rotatePoint\<close>, which is translated back
  by the centroid; the two agree because the centroid of a generated shape has
  \<open>z = 0\<close>.
\<close>

theorem render_painter_order:
  assumes "points3D st = points3D (snd (generateShape this fresh pointCloud2D))"
    and "faces st = faces (snd (generateShape this fresh pointCloud2D))"
    and "centroid st = centroid (snd (generateShape this fresh pointCloud2D))"
    and "points3D st \<noteq> []"
  shows "render st =
     ([Clear]
      @ map (\<lambda>f. FillPath (color f) (map (\<lambda>idx. project3DTo2D st (points3D st ! idx)) (indices f)))
          (sort_key (\<lambda>f. sum_list (map (\<lambda>idx. vz (rotatePoint st (points3D st ! idx))
                                             - vz (centroid st)) (indices f)) / 3)
             (faces st))
      @ map (\<lambda>f. StrokePath (map (\<lambda>idx. project3DTo2D st (points3D st ! idx)) (indices f)))
          (faces st),
      None) \<and>
     sorted (map (\<lambda>f. sum_list (map (\<lambda>idx. vz (rotatePoint st (points3D st ! idx))
                                             - vz (centroid st)) (indices f)) / 3)
              (sort_key (\<lambda>f. sum_list (map (\<lambda>idx. vz (rotatePoint st (points3D st ! idx))
                                             - vz (centroid st)) (indices f)) / 3)
                 (faces st))) \<and>
     list_all (\<lambda>f. length (indices f) = 3) (faces st)"
proof -
  let ?env = "snd (generateEnvelope this fresh pointCloud2D)"
  have valid: "\<forall>f \<in> set (faces st). length (indices f) = 3 \<and>
                  (\<forall>idx \<in> set (indices f). idx < length (points3D st))"
    using shape_faces_valid [of _ this ?env] assms(1,2) by (simp add: generateShape_snd)
  have cz: "vz (centroid st) = 0"
    using shape_centroid_z [of this ?env] assms(3) by (simp add: generateShape_snd)
  have three: "list_all (\<lambda>f. length (indices f) = 3) (faces st)"
    using valid by (simp add: list_all_iff)
  show ?thesis
    unfolding cz diff_0_right
    using render_valid [OF assms(4) valid] three by (simp only: sorted_sort_key simp_thms)
qed

theorem render_painter_order_witness:
  "points3D (snd (generateShape (initial_renderer 800 600) 1 [\<lparr>px = 1, py = 2, addr = 0\<rparr>])) \<noteq> [] \<and>
   snd (render (snd (generateShape (initial_renderer 800 600) 1 [\<lparr>px = 1, py = 2, addr = 0\<rparr>]))) = None \<and>
   length (fst (render (snd (generateShape (initial_renderer 800 600) 1 [\<lparr>px = 1, py = 2, addr = 0\<rparr>]))))
     = 33"
proof -
  let ?S = "snd (generateShape (initial_renderer 800 600) 1 [\<lparr>px = 1, py = 2, addr = 0\<rparr>])"
  have len: "length (points3D ?S) = 17"
    by (simp add: generateShape_snd generateEnvelope_short shape_points3D
        generate3DPoints_length initial_renderer_def)
  then have ne: "points3D ?S \<noteq> []" by auto
  have fs: "length (faces ?S) = 16"
    by (simp add: generateShape_snd generateEnvelope_short shape_faces side_faces_length
        cap_faces_length initial_renderer_def)
  show ?thesis
    using render_painter_order [OF refl refl refl ne] ne fs by simp
qed

end
